theory Spec2Isabelle
  imports Main
begin

section \<open>Data model\<close>

text \<open>
  The Docker API types the module reads, with the fields it projects.
  \<open>types.Container\<close> carries \<open>ID\<close>, the \<open>Labels\<close> map and
  \<open>NetworkSettings.Networks\<close>, a Go map from network name to endpoint settings.
  \<open>toUpstream\<close> ranges over that map, and Go leaves the order of a map range
  unspecified: \<open>Networks\<close> is therefore the list of the map's entries in the order
  in which the range statement of the call at hand visits them. The pointers
  \<open>NetworkSettings\<close> and the endpoint values are taken to be non-nil, as they are in
  every record that \<open>ContainerList\<close> decodes from the daemon's answer.
\<close>

record EndpointSettings =
  IPAddress :: string

record SummaryNetworkSettings =
  Networks :: "(string \<times> EndpointSettings) list"

record Container =
  ID :: string
  Labels :: "string \<rightharpoonup> string"
  NetworkSettings :: SummaryNetworkSettings

text \<open>
  Of \<open>http.Request\<close> only the host and the URL path are kept: they are what the two
  registered matcher kinds look at. The matchers themselves belong to Caddy.
\<close>

record Request =
  Host :: string
  Path :: string

text \<open>\<open>reverseproxy.Upstream\<close>: the module sets the dial address only.\<close>

record Upstream =
  Dial :: string

text \<open>
  Go errors. \<open>Canceled\<close> stands for every error \<open>e\<close> with
  \<open>errors.Is(e, context.Canceled)\<close>; \<open>Failure msg\<close> is any other error, carrying its
  message (\<open>errors.New(msg)\<close>).
\<close>

datatype go_error = Canceled | Failure string

text \<open>
  The logger is modelled by what has been written to it: one entry per call of
  \<open>Error\<close> or \<open>Warn\<close>, with the message and the error of the \<open>zap.Error\<close> field.
\<close>

datatype level = Error | Warn

type_synonym log_entry = "level \<times> string \<times> go_error"

text \<open>The module's state: the logger and the snapshot (the mutex is not modelled).\<close>

record Upstreams =
  logger :: "log_entry list"
  containers :: "Container list"

text \<open>The package-level cache \<open>addresses\<close>, keyed by container ID.\<close>

type_synonym cache = "string \<rightharpoonup> Upstream"

section \<open>Label constants\<close>

definition LabelEnable :: string where
  "LabelEnable = ''com.caddyserver.http.enable''"

definition LabelMatchHost :: string where
  "LabelMatchHost = ''com.caddyserver.http.matchers.host''"

definition LabelMatchPath :: string where
  "LabelMatchPath = ''com.caddyserver.http.matchers.path''"

definition LabelUpstreamPort :: string where
  "LabelUpstreamPort = ''com.caddyserver.http.upstream.port''"

section \<open>The matcher registry and \<open>match\<close>\<close>

text \<open>
  A \<open>caddyhttp.RequestMatcher\<close> is its \<open>Match\<close> method, a predicate on requests.
  \<open>caddyhttp.MatchHost\<close> and \<open>caddyhttp.MatchPath\<close> are Caddy's: they are parameters
  of the model, each taking the list of patterns it is built from.
\<close>

type_synonym RequestMatcher = "Request \<Rightarrow> bool"

type_synonym matcher_kind = "string list \<Rightarrow> RequestMatcher"

text \<open>
  The registry \<open>matchers\<close>, a Go map from label key to matcher constructor, as the
  list of its entries. \<open>match\<close> ranges over it in an order Go does not fix;
  \<open>match_range_set\<close> below shows that the order does not matter.
\<close>

definition matchers ::
  "matcher_kind \<Rightarrow> matcher_kind \<Rightarrow> (string \<times> (string \<Rightarrow> RequestMatcher)) list" where
  "matchers MatchHost MatchPath =
     [(LabelMatchHost, \<lambda>value. MatchHost [value]),
      (LabelMatchPath, \<lambda>value. MatchPath [value])]"

text \<open>The loop \<open>for key, matcher := range matchers\<close> of \<open>match\<close>.\<close>

fun match_range ::
  "Request \<Rightarrow> Container \<Rightarrow> (string \<times> (string \<Rightarrow> RequestMatcher)) list \<Rightarrow> bool" where
  "match_range r container [] = True"
| "match_range r container ((key, matcher) # rest) =
     (case Labels container key of
        None \<Rightarrow> match_range r container rest
      | Some value \<Rightarrow>
          if \<not> matcher value r then False else match_range r container rest)"

definition match :: "matcher_kind \<Rightarrow> matcher_kind \<Rightarrow> Request \<Rightarrow> Container \<Rightarrow> bool" where
  "match MatchHost MatchPath r container =
     (case Labels container LabelEnable of
        None \<Rightarrow> False
      | Some enable \<Rightarrow>
          if enable \<noteq> ''true'' then False
          else match_range r container (matchers MatchHost MatchPath))"

section \<open>Address resolution: \<open>toUpstream\<close>\<close>

text \<open>
  \<open>net.JoinHostPort\<close> of the Go standard library: a host that holds a colon is taken
  for an IPv6 literal and put in brackets.
\<close>

definition JoinHostPort :: "string \<Rightarrow> string \<Rightarrow> string" where
  "JoinHostPort host port =
     (if CHR '':'' \<in> set host then ''['' @ host @ '']:'' @ port
      else host @ '':'' @ port)"

text \<open>
  \<open>toUpstream\<close> takes the cache and returns it, updated when the call inserts. This is
  a call that no other call overlaps: it runs from its lookup to its return on the cache
  it was given. Overlapping calls are modelled further down, critical section by critical
  section.
\<close>

definition toUpstream :: "Container \<Rightarrow> cache \<Rightarrow> (go_error + Upstream) \<times> cache" where
  "toUpstream container addresses =
     (case addresses (ID container) of
        Some cached \<Rightarrow> (Inr cached, addresses)
      | None \<Rightarrow>
          (case Labels container LabelUpstreamPort of
             None \<Rightarrow> (Inl (Failure ''unable to get port from container labels''), addresses)
           | Some port \<Rightarrow>
               (case Networks (NetworkSettings container) of
                  [] \<Rightarrow>
                    (Inl (Failure ''unable to get ip address from container networks''),
                     addresses)
                | (name, network) # rest \<Rightarrow>
                    (let address = JoinHostPort (IPAddress network) port;
                         upstream = \<lparr>Dial = address\<rparr>
                     in (Inr upstream, addresses(ID container \<mapsto> upstream))))))"

subsection \<open>The two critical sections of \<open>toUpstream\<close>\<close>

text \<open>
  \<open>toUpstream\<close> holds \<open>addressesMu\<close> twice: shared for the lookup, and exclusive for
  the insert, with the lock free in between. \<open>toUpstream_lookup\<close> is the first section
  with the test of \<open>ok\<close>; \<open>toUpstream_miss\<close> is what a call does after a missed lookup:
  the port, the first network, the insert and the return. It does not look the ID up
  again, and it writes to the cache as it is when the write lock is taken.
\<close>

definition toUpstream_lookup :: "Container \<Rightarrow> cache \<Rightarrow> Upstream option" where
  "toUpstream_lookup container addresses = addresses (ID container)"

definition toUpstream_miss :: "Container \<Rightarrow> cache \<Rightarrow> (go_error + Upstream) \<times> cache" where
  "toUpstream_miss container addresses =
     (case Labels container LabelUpstreamPort of
        None \<Rightarrow> (Inl (Failure ''unable to get port from container labels''), addresses)
      | Some port \<Rightarrow>
          (case Networks (NetworkSettings container) of
             [] \<Rightarrow>
               (Inl (Failure ''unable to get ip address from container networks''),
                addresses)
           | (name, network) # rest \<Rightarrow>
               (let address = JoinHostPort (IPAddress network) port;
                    upstream = \<lparr>Dial = address\<rparr>
                in (Inr upstream, addresses(ID container \<mapsto> upstream)))))"

text \<open>
  A call in progress: before its lookup, after a lookup that missed, or returned with
  its result. \<open>call_step\<close> runs the next critical section of a call on the cache of
  that moment.
\<close>

datatype call = Looking Container | Missed Container | Finished "go_error + Upstream"

fun call_step :: "call \<Rightarrow> cache \<Rightarrow> call \<times> cache" where
  "call_step (Looking container) addresses =
     (case toUpstream_lookup container addresses of
        Some cached \<Rightarrow> (Finished (Inr cached), addresses)
      | None \<Rightarrow> (Missed container, addresses))"
| "call_step (Missed container) addresses =
     (case toUpstream_miss container addresses of
        (res, addresses') \<Rightarrow> (Finished res, addresses'))"
| "call_step (Finished res) addresses = (Finished res, addresses)"

text \<open>
  Calls that run at the same time, as request handlers do: a schedule names, step by
  step, the call whose next critical section runs. The locks order the sections and
  nothing else.
\<close>

fun interleave :: "nat list \<Rightarrow> call list \<Rightarrow> cache \<Rightarrow> call list \<times> cache" where
  "interleave [] calls addresses = (calls, addresses)"
| "interleave (i # schedule) calls addresses =
     (if i < length calls
      then (case call_step (calls ! i) addresses of
              (c, addresses') \<Rightarrow> interleave schedule (calls[i := c]) addresses')
      else interleave schedule calls addresses)"

section \<open>\<open>GetUpstreams\<close>\<close>

text \<open>
  The loop \<open>for _, container := range u.containers\<close>: it carries the slice
  \<open>upstreams\<close>, the logger's entries and the cache.
\<close>

fun GetUpstreams_range ::
  "matcher_kind \<Rightarrow> matcher_kind \<Rightarrow> Request \<Rightarrow> Container list \<Rightarrow>
   Upstream list \<times> log_entry list \<times> cache \<Rightarrow> Upstream list \<times> log_entry list \<times> cache" where
  "GetUpstreams_range MatchHost MatchPath r [] st = st"
| "GetUpstreams_range MatchHost MatchPath r (container # rest) (upstreams, lg, addresses) =
     (if \<not> match MatchHost MatchPath r container
      then GetUpstreams_range MatchHost MatchPath r rest (upstreams, lg, addresses)
      else
        (case toUpstream container addresses of
           (Inl err, addresses') \<Rightarrow>
             GetUpstreams_range MatchHost MatchPath r rest
               (upstreams, lg @ [(Warn, ''unable to get upstream from container'', err)],
                addresses')
         | (Inr upstream, addresses') \<Rightarrow>
             GetUpstreams_range MatchHost MatchPath r rest
               (upstreams @ [upstream], lg, addresses')))"

text \<open>
  \<open>GetUpstreams\<close> returns the pair of the source (the list and the error, \<open>None\<close> for
  \<open>nil\<close>), and with it the module with what it logged and the cache.
\<close>

definition GetUpstreams ::
  "matcher_kind \<Rightarrow> matcher_kind \<Rightarrow> Request \<Rightarrow> Upstreams \<Rightarrow> cache \<Rightarrow>
   (Upstream list \<times> go_error option) \<times> Upstreams \<times> cache" where
  "GetUpstreams MatchHost MatchPath r u addresses =
     (case GetUpstreams_range MatchHost MatchPath r (containers u) ([], logger u, addresses) of
        (upstreams, lg, addresses') \<Rightarrow>
          ((upstreams, None), u\<lparr>logger := lg\<rparr>, addresses'))"

section \<open>The watcher: \<open>keepUpdated\<close>\<close>

text \<open>
  \<open>keepUpdated\<close> is a loop that blocks in two \<open>select\<close> statements. Where it stands:
  in the inner \<open>select\<close> on \<open>messages\<close> and \<open>errs\<close> (\<open>Select\<close>), in the second
  \<open>select\<close> on \<open>ctx.Done()\<close> and the timer, with the duration given to
  \<open>time.After\<close> (\<open>Backoff\<close>), or after its \<open>return\<close> (\<open>Returned\<close>).
\<close>

datatype location = Select | Backoff nat | Returned

text \<open>
  What a \<open>select\<close> receives. A value from \<open>messages\<close> is followed by the call of
  \<open>ContainerList\<close>, and the event carries what that call returns.
\<close>

datatype event =
    Message "go_error + Container list"
  | Errs go_error
  | CtxDone
  | TimeAfter

text \<open>
  The watcher's state: the module it updates, where it stands, and how many times it has
  called \<open>cli.Events\<close>.
\<close>

record Watcher =
  receiver :: Upstreams
  location :: location
  subscriptions :: nat

text \<open>\<open>time.Millisecond\<close>, in nanoseconds as \<open>time.Duration\<close> counts.\<close>

definition Millisecond :: nat where
  "Millisecond = 1000000"

text \<open>
  \<open>go u.keepUpdated(ctx, cli)\<close>: the first pass of the outer loop subscribes and enters
  the inner \<open>select\<close>.
\<close>

definition keepUpdated_start :: "Upstreams \<Rightarrow> Watcher" where
  "keepUpdated_start u = \<lparr>receiver = u, location = Select, subscriptions = 1\<rparr>"

text \<open>
  One receive and what follows it, up to the next \<open>select\<close> or the \<open>return\<close>. An
  event that the \<open>select\<close> at hand does not wait for gives \<open>None\<close>.
\<close>

fun keepUpdated_at :: "location \<Rightarrow> event \<Rightarrow> Watcher \<Rightarrow> Watcher option" where
  "keepUpdated_at Select (Message (Inl err)) w =
     Some (w\<lparr>receiver := (receiver w)\<lparr>logger := logger (receiver w) @
       [(Error, ''unable to get the list of containers'', err)]\<rparr>\<rparr>)"
| "keepUpdated_at Select (Message (Inr cs)) w =
     Some (w\<lparr>receiver := (receiver w)\<lparr>containers := cs\<rparr>\<rparr>)"
| "keepUpdated_at Select (Errs err) w =
     (if err = Canceled then Some (w\<lparr>location := Returned\<rparr>)
      else Some (w\<lparr>receiver := (receiver w)\<lparr>logger := logger (receiver w) @
             [(Warn, ''unable to monitor container events; will retry'', err)]\<rparr>,
           location := Backoff (500 * Millisecond)\<rparr>))"
| "keepUpdated_at (Backoff d) CtxDone w = Some (w\<lparr>location := Returned\<rparr>)"
| "keepUpdated_at (Backoff d) TimeAfter w =
     Some (w\<lparr>location := Select, subscriptions := subscriptions w + 1\<rparr>)"
| "keepUpdated_at _ _ w = None"

definition keepUpdated_step :: "event \<Rightarrow> Watcher \<Rightarrow> Watcher option" where
  "keepUpdated_step e w = keepUpdated_at (location w) e w"

text \<open>
  The watcher driven by the events it receives, in order. The loop has no exit of its
  own: how far it runs is how many events arrive.
\<close>

fun keepUpdated :: "event list \<Rightarrow> Watcher \<Rightarrow> Watcher option" where
  "keepUpdated [] w = Some w"
| "keepUpdated (e # es) w =
     (case keepUpdated_step e w of None \<Rightarrow> None | Some w' \<Rightarrow> keepUpdated es w')"

section \<open>Notions the properties are stated with\<close>

text \<open>
  The matching containers of a snapshot in snapshot order, each with what its resolution
  returns in the cache as the containers before it have left it.
\<close>

fun resolutions ::
  "matcher_kind \<Rightarrow> matcher_kind \<Rightarrow> Request \<Rightarrow> Container list \<Rightarrow> cache \<Rightarrow>
   (Container \<times> (go_error + Upstream)) list" where
  "resolutions MatchHost MatchPath r [] a = []"
| "resolutions MatchHost MatchPath r (c # cs) a =
     (if match MatchHost MatchPath r c
      then (c, fst (toUpstream c a)) #
           resolutions MatchHost MatchPath r cs (snd (toUpstream c a))
      else resolutions MatchHost MatchPath r cs a)"

text \<open>The targets of the resolutions that succeeded, and the warnings of those that failed.\<close>

fun targets :: "(Container \<times> (go_error + Upstream)) list \<Rightarrow> Upstream list" where
  "targets [] = []"
| "targets ((c, Inr upstream) # xs) = upstream # targets xs"
| "targets ((c, Inl err) # xs) = targets xs"

fun warnings :: "(Container \<times> (go_error + Upstream)) list \<Rightarrow> log_entry list" where
  "warnings [] = []"
| "warnings ((c, Inr upstream) # xs) = warnings xs"
| "warnings ((c, Inl err) # xs) =
     (Warn, ''unable to get upstream from container'', err) # warnings xs"

text \<open>
  For each container of a snapshot, the cache in which \<open>GetUpstreams\<close> reaches it: the
  containers before it that matched have been resolved.
\<close>

fun caches ::
  "matcher_kind \<Rightarrow> matcher_kind \<Rightarrow> Request \<Rightarrow> Container list \<Rightarrow> cache \<Rightarrow> cache list" where
  "caches MatchHost MatchPath r [] a = []"
| "caches MatchHost MatchPath r (c # cs) a =
     a # caches MatchHost MatchPath r cs
           (if match MatchHost MatchPath r c then snd (toUpstream c a) else a)"

text \<open>
  Whether the resolution of a container succeeds in a cache, and the target it then
  returns (\<open>target\<close> is only used where \<open>resolved\<close> holds).
\<close>

definition resolved :: "Container \<Rightarrow> cache \<Rightarrow> bool" where
  "resolved c a = (\<not> isl (fst (toUpstream c a)))"

definition target :: "Container \<Rightarrow> cache \<Rightarrow> Upstream" where
  "target c a = projr (fst (toUpstream c a))"

text \<open>The same for a container paired with the cache in which it is reached.\<close>

fun visited :: "matcher_kind \<Rightarrow> matcher_kind \<Rightarrow> Request \<Rightarrow> Container \<times> cache \<Rightarrow> bool" where
  "visited MatchHost MatchPath r (c, a) = (match MatchHost MatchPath r c \<and> resolved c a)"

fun target_in :: "Container \<times> cache \<Rightarrow> Upstream" where
  "target_in (c, a) = target c a"

text \<open>The cache after the containers of a list have been resolved one after another.\<close>

fun resolve_all :: "Container list \<Rightarrow> cache \<Rightarrow> cache" where
  "resolve_all [] a = a"
| "resolve_all (c # cs) a = resolve_all cs (snd (toUpstream c a))"

text \<open>
  The cache after a history of requests served one after another, each against the
  module as it was when the request came (the watcher may have replaced the snapshot in
  between).
\<close>

fun serve ::
  "matcher_kind \<Rightarrow> matcher_kind \<Rightarrow> (Request \<times> Upstreams) list \<Rightarrow> cache \<Rightarrow> cache" where
  "serve MatchHost MatchPath [] a = a"
| "serve MatchHost MatchPath ((r, u) # rest) a =
     serve MatchHost MatchPath rest (snd (snd (GetUpstreams MatchHost MatchPath r u a)))"

text \<open>The network attachments of a container that have a non-empty IP address.\<close>

definition usable_networks :: "Container \<Rightarrow> (string \<times> EndpointSettings) list" where
  "usable_networks c = filter (\<lambda>(name, network). IPAddress network \<noteq> []) (Networks (NetworkSettings c))"

text \<open>
  What the watcher receives when the subscription fails \<open>n\<close> times with an error and the
  timer fires after each failure, and when every re-list of a run of notifications fails.
\<close>

fun failed_subscriptions :: "nat \<Rightarrow> go_error \<Rightarrow> event list" where
  "failed_subscriptions 0 err = []"
| "failed_subscriptions (Suc n) err = Errs err # TimeAfter # failed_subscriptions n err"

fun failed_relists :: "go_error list \<Rightarrow> event list" where
  "failed_relists [] = []"
| "failed_relists (err # errs) = Message (Inl err) # failed_relists errs"

fun relist_errors :: "go_error list \<Rightarrow> log_entry list" where
  "relist_errors [] = []"
| "relist_errors (err # errs) =
     (Error, ''unable to get the list of containers'', err) # relist_errors errs"

section \<open>Examples\<close>

text \<open>
  Two plain matcher kinds to evaluate examples with (comparison with the patterns); the
  theorems below hold for every pair of matcher kinds.
\<close>

definition exact_host :: matcher_kind where
  "exact_host patterns r = (Host r \<in> set patterns)"

definition exact_path :: matcher_kind where
  "exact_path patterns r = (Path r \<in> set patterns)"

definition container_A :: Container where
  "container_A =
     \<lparr>ID = ''aaa'',
      Labels = [LabelEnable \<mapsto> ''true'', LabelUpstreamPort \<mapsto> ''8080''],
      NetworkSettings = \<lparr>Networks = [(''bridge'', \<lparr>IPAddress = ''10.0.0.5''\<rparr>)]\<rparr>\<rparr>"

definition container_B :: Container where
  "container_B =
     \<lparr>ID = ''bbb'',
      Labels = [LabelEnable \<mapsto> ''true'', LabelMatchHost \<mapsto> ''example.com'',
                LabelUpstreamPort \<mapsto> ''9090''],
      NetworkSettings = \<lparr>Networks = [(''bridge'', \<lparr>IPAddress = ''10.0.0.6''\<rparr>)]\<rparr>\<rparr>"

text \<open>A container whose enable label is not \<open>''true''\<close>, and one without a port label.\<close>

definition container_off :: Container where
  "container_off =
     \<lparr>ID = ''ccc'',
      Labels = [LabelEnable \<mapsto> ''yes'', LabelUpstreamPort \<mapsto> ''8080''],
      NetworkSettings = \<lparr>Networks = [(''bridge'', \<lparr>IPAddress = ''10.0.0.7''\<rparr>)]\<rparr>\<rparr>"

definition container_noport :: Container where
  "container_noport =
     \<lparr>ID = ''ddd'',
      Labels = [LabelEnable \<mapsto> ''true''],
      NetworkSettings = \<lparr>Networks = [(''bridge'', \<lparr>IPAddress = ''10.0.0.8''\<rparr>)]\<rparr>\<rparr>"

text \<open>
  A container whose first network attachment, in the order of the range, has no IP
  address and whose second has one.
\<close>

definition container_noip :: Container where
  "container_noip =
     \<lparr>ID = ''eee'',
      Labels = [LabelEnable \<mapsto> ''true'', LabelUpstreamPort \<mapsto> ''8080''],
      NetworkSettings =
        \<lparr>Networks = [(''backend'', \<lparr>IPAddress = []\<rparr>),
                     (''bridge'', \<lparr>IPAddress = ''10.0.0.9''\<rparr>)]\<rparr>\<rparr>"

text \<open>
  A container whose only network attachment has no IP address, as the attachment of a
  container in host network mode has none.
\<close>

definition container_emptyip :: Container where
  "container_emptyip =
     \<lparr>ID = ''fff'',
      Labels = [LabelEnable \<mapsto> ''true'', LabelUpstreamPort \<mapsto> ''8080''],
      NetworkSettings = \<lparr>Networks = [(''host'', \<lparr>IPAddress = []\<rparr>)]\<rparr>\<rparr>"

text \<open>
  A container attached to two networks, as two calls see it whose ranges over the
  networks start with the one and with the other.
\<close>

definition container_two :: Container where
  "container_two =
     \<lparr>ID = ''ggg'',
      Labels = [LabelEnable \<mapsto> ''true'', LabelUpstreamPort \<mapsto> ''8080''],
      NetworkSettings =
        \<lparr>Networks = [(''frontend'', \<lparr>IPAddress = ''10.0.1.2''\<rparr>),
                     (''backend'', \<lparr>IPAddress = ''10.0.2.2''\<rparr>)]\<rparr>\<rparr>"

definition container_two_other :: Container where
  "container_two_other =
     \<lparr>ID = ''ggg'',
      Labels = [LabelEnable \<mapsto> ''true'', LabelUpstreamPort \<mapsto> ''8080''],
      NetworkSettings =
        \<lparr>Networks = [(''backend'', \<lparr>IPAddress = ''10.0.2.2''\<rparr>),
                     (''frontend'', \<lparr>IPAddress = ''10.0.1.2''\<rparr>)]\<rparr>\<rparr>"

text \<open>A module whose snapshot lists four of them, and one that lists only \<open>container_B\<close>.\<close>

definition snapshot_example :: Upstreams where
  "snapshot_example =
     \<lparr>logger = [],
      containers = [container_A, container_noport, container_B, container_off]\<rparr>"

definition snapshot_B :: Upstreams where
  "snapshot_B = \<lparr>logger = [], containers = [container_B]\<rparr>"

definition request_example :: Request where
  "request_example = \<lparr>Host = ''example.com'', Path = ''/''\<rparr>"

definition request_other :: Request where
  "request_other = \<lparr>Host = ''other.com'', Path = ''/''\<rparr>"

section \<open>Properties of \<open>match\<close>\<close>

lemma match_range_set:
  "match_range r container ms =
     (\<forall>(key, matcher) \<in> set ms.
        case Labels container key of None \<Rightarrow> True | Some value \<Rightarrow> matcher value r)"
  by (induction ms) (auto split: option.splits if_splits)

text \<open>
  C4. A container whose labels lack the enable key, or map it to a string other than
  \<open>''true''\<close>, matches no request, whatever the matchers say.
\<close>

theorem match_requires_enable:
  "Labels container LabelEnable \<noteq> Some ''true'' \<Longrightarrow>
     \<not> match MatchHost MatchPath r container"
  by (auto simp: match_def split: option.splits)

theorem match_requires_enable_witness:
  "Labels container_off LabelEnable \<noteq> Some ''true'' \<and>
   \<not> match exact_host exact_path request_example container_off"
  using match_requires_enable [of container_off exact_host exact_path request_example]
  by (simp add: container_off_def LabelEnable_def)

text \<open>
  C5. A container whose labels map the enable key to \<open>''true''\<close> and hold neither the
  host-match nor the path-match key matches every request: a matcher kind without its
  label puts no constraint on the request.
\<close>

theorem match_without_matcher_labels:
  "Labels container LabelEnable = Some ''true'' \<Longrightarrow>
   Labels container LabelMatchHost = None \<Longrightarrow>
   Labels container LabelMatchPath = None \<Longrightarrow>
     match MatchHost MatchPath r container"
  by (simp add: match_def matchers_def)

theorem match_without_matcher_labels_witness:
  "Labels container_A LabelEnable = Some ''true'' \<and>
   Labels container_A LabelMatchHost = None \<and>
   Labels container_A LabelMatchPath = None \<and>
   match exact_host exact_path request_other container_A"
  using match_without_matcher_labels [of container_A exact_host exact_path request_other]
  by (simp add: container_A_def LabelEnable_def LabelMatchHost_def LabelMatchPath_def
      LabelUpstreamPort_def)

section \<open>Properties of \<open>toUpstream\<close>\<close>

lemma toUpstream_hit: "a (ID c) = Some cached \<Longrightarrow> toUpstream c a = (Inr cached, a)"
  by (simp add: toUpstream_def)

lemma toUpstream_keeps: "a k = Some v \<Longrightarrow> snd (toUpstream c a) k = Some v"
  by (auto simp: toUpstream_def Let_def split: option.splits list.splits)

lemma toUpstream_cached:
  "fst (toUpstream c a) = Inr up \<Longrightarrow> snd (toUpstream c a) (ID c) = Some up"
  by (auto simp: toUpstream_def Let_def split: option.splits list.splits)

lemma toUpstream_failed: "fst (toUpstream c a) = Inl err \<Longrightarrow> snd (toUpstream c a) = a"
  by (auto simp: toUpstream_def Let_def split: option.splits list.splits)

lemma resolve_all_keeps: "a k = Some v \<Longrightarrow> resolve_all cs a k = Some v"
  by (induction cs arbitrary: a) (simp_all add: toUpstream_keeps)

text \<open>
  C1, as the code has it. For a container without a cached entry, \<open>toUpstream\<close> fails
  with the missing-port error exactly when the upstream-port label is absent, and with
  the no-address error exactly when the port label is present and the container has no
  network attachment at all. Otherwise it returns, and caches, the dial target made of
  the IP address of the first attachment visited and the port, whether that address is
  empty or not.
\<close>

theorem toUpstream_on_miss:
  "a (ID c) = None \<Longrightarrow>
     (fst (toUpstream c a) = Inl (Failure ''unable to get port from container labels'')
        \<longleftrightarrow> Labels c LabelUpstreamPort = None) \<and>
     (fst (toUpstream c a) = Inl (Failure ''unable to get ip address from container networks'')
        \<longleftrightarrow> Labels c LabelUpstreamPort \<noteq> None \<and> Networks (NetworkSettings c) = []) \<and>
     (\<forall>port name network rest.
        Labels c LabelUpstreamPort = Some port \<longrightarrow>
        Networks (NetworkSettings c) = (name, network) # rest \<longrightarrow>
        toUpstream c a =
          (Inr \<lparr>Dial = JoinHostPort (IPAddress network) port\<rparr>,
           a(ID c \<mapsto> \<lparr>Dial = JoinHostPort (IPAddress network) port\<rparr>)))"
  by (auto simp: toUpstream_def Let_def split: option.splits list.splits)

theorem toUpstream_on_miss_witness:
  "Map.empty (ID container_noip) = None \<and>
   Labels container_noip LabelUpstreamPort = Some ''8080'' \<and>
   Networks (NetworkSettings container_noip) =
     (''backend'', \<lparr>IPAddress = []\<rparr>) # [(''bridge'', \<lparr>IPAddress = ''10.0.0.9''\<rparr>)] \<and>
   toUpstream container_noip Map.empty =
     (Inr \<lparr>Dial = '':8080''\<rparr>, [ID container_noip \<mapsto> \<lparr>Dial = '':8080''\<rparr>])"
  using toUpstream_on_miss [of Map.empty container_noip]
  by (simp add: container_noip_def LabelUpstreamPort_def LabelEnable_def JoinHostPort_def)

text \<open>
  C1 as stated fails. \<open>container_emptyip\<close> has the port label, no cached entry and no
  network attachment with a non-empty IP address, and its resolution does not fail: it
  returns the target \<open>'':8080''\<close>. \<open>container_noip\<close> has a second attachment with the
  address \<open>10.0.0.9\<close>, and its target is still made of the empty address of the first.
\<close>

theorem toUpstream_empty_ip_counterexample:
  "Map.empty (ID container_emptyip) = None \<and>
   Labels container_emptyip LabelUpstreamPort = Some ''8080'' \<and>
   usable_networks container_emptyip = [] \<and>
   fst (toUpstream container_emptyip Map.empty) = Inr \<lparr>Dial = '':8080''\<rparr> \<and>
   usable_networks container_noip = [(''bridge'', \<lparr>IPAddress = ''10.0.0.9''\<rparr>)] \<and>
   fst (toUpstream container_noip Map.empty) = Inr \<lparr>Dial = '':8080''\<rparr>"
  by (simp add: container_emptyip_def container_noip_def usable_networks_def toUpstream_def
      LabelUpstreamPort_def LabelEnable_def JoinHostPort_def Let_def)

text \<open>
  Calls that do not overlap are idempotent. Once \<open>toUpstream\<close> has returned a target
  for a container, every later call for a record with the same ID returns that target and
  leaves the cache as it is, whatever the record's labels and networks are and whatever
  containers \<open>cs\<close> were resolved in between, each call running from its lookup to its
  return before the next begins: the call is a cache hit and derives nothing. Calls that
  overlap are the subject of the last section.
\<close>

theorem toUpstream_idempotent:
  "fst (toUpstream c a) = Inr up \<Longrightarrow> ID c' = ID c \<Longrightarrow>
     toUpstream c' (resolve_all cs (snd (toUpstream c a))) =
       (Inr up, resolve_all cs (snd (toUpstream c a)))"
proof -
  assume ok: "fst (toUpstream c a) = Inr up" and same: "ID c' = ID c"
  from ok have "snd (toUpstream c a) (ID c) = Some up"
    by (rule toUpstream_cached)
  then have "resolve_all cs (snd (toUpstream c a)) (ID c) = Some up"
    by (rule resolve_all_keeps)
  with same show ?thesis
    by (simp add: toUpstream_hit)
qed

theorem toUpstream_idempotent_witness:
  "fst (toUpstream container_A Map.empty) = Inr \<lparr>Dial = ''10.0.0.5:8080''\<rparr> \<and>
   ID \<lparr>ID = ''aaa'', Labels = Map.empty, NetworkSettings = \<lparr>Networks = []\<rparr>\<rparr> =
     ID container_A \<and>
   fst (toUpstream \<lparr>ID = ''aaa'', Labels = Map.empty, NetworkSettings = \<lparr>Networks = []\<rparr>\<rparr>
     (resolve_all [container_B] (snd (toUpstream container_A Map.empty)))) =
     Inr \<lparr>Dial = ''10.0.0.5:8080''\<rparr>"
  using toUpstream_idempotent [of container_A Map.empty "\<lparr>Dial = ''10.0.0.5:8080''\<rparr>"
      "\<lparr>ID = ''aaa'', Labels = Map.empty, NetworkSettings = \<lparr>Networks = []\<rparr>\<rparr>"
      "[container_B]"]
  by (simp add: container_A_def container_B_def toUpstream_def LabelUpstreamPort_def
      LabelEnable_def LabelMatchHost_def JoinHostPort_def Let_def)

section \<open>Properties of \<open>GetUpstreams\<close>\<close>

lemma GetUpstreams_range_resolutions:
  "GetUpstreams_range MatchHost MatchPath r cs (ups, lg, a) =
     (ups @ targets (resolutions MatchHost MatchPath r cs a),
      lg @ warnings (resolutions MatchHost MatchPath r cs a),
      resolve_all (filter (match MatchHost MatchPath r) cs) a)"
proof (induction cs arbitrary: ups lg a)
  case Nil
  show ?case by simp
next
  case (Cons c cs)
  show ?case
  proof (cases "match MatchHost MatchPath r c")
    case False
    with Cons show ?thesis by simp
  next
    case True
    obtain res a' where res: "toUpstream c a = (res, a')"
      by (cases "toUpstream c a")
    show ?thesis
    proof (cases res)
      case (Inl err)
      with True res show ?thesis by (simp add: Cons.IH)
    next
      case (Inr up)
      with True res show ?thesis by (simp add: Cons.IH)
    qed
  qed
qed

lemma GetUpstreams_resolutions:
  "GetUpstreams MatchHost MatchPath r u a =
     ((targets (resolutions MatchHost MatchPath r (containers u) a), None),
      u\<lparr>logger := logger u @ warnings (resolutions MatchHost MatchPath r (containers u) a)\<rparr>,
      resolve_all (filter (match MatchHost MatchPath r) (containers u)) a)"
  by (simp add: GetUpstreams_def GetUpstreams_range_resolutions)

lemma resolutions_containers:
  "map fst (resolutions MatchHost MatchPath r cs a) = filter (match MatchHost MatchPath r) cs"
  by (induction cs arbitrary: a) simp_all

lemma targets_warnings_length: "length (targets xs) + length (warnings xs) = length xs"
  by (induction xs rule: targets.induct) simp_all

text \<open>The examples, evaluated.\<close>

lemma match_examples:
  "match exact_host exact_path request_example container_A"
  "match exact_host exact_path request_example container_B"
  "match exact_host exact_path request_example container_noport"
  "\<not> match exact_host exact_path request_example container_off"
  "match exact_host exact_path request_other container_A"
  "\<not> match exact_host exact_path request_other container_B"
  by (simp_all add: match_def matchers_def exact_host_def exact_path_def request_example_def
      request_other_def container_A_def container_B_def container_noport_def container_off_def
      LabelEnable_def LabelMatchHost_def LabelMatchPath_def LabelUpstreamPort_def)

lemma ID_examples:
  "ID container_A = ''aaa''" "ID container_B = ''bbb''" "ID container_off = ''ccc''"
  "ID container_noport = ''ddd''"
  by (simp_all add: container_A_def container_B_def container_off_def container_noport_def)

lemma toUpstream_examples:
  "a ''aaa'' = None \<Longrightarrow>
     toUpstream container_A a =
       (Inr \<lparr>Dial = ''10.0.0.5:8080''\<rparr>, a(''aaa'' \<mapsto> \<lparr>Dial = ''10.0.0.5:8080''\<rparr>))"
  "a ''bbb'' = None \<Longrightarrow>
     toUpstream container_B a =
       (Inr \<lparr>Dial = ''10.0.0.6:9090''\<rparr>, a(''bbb'' \<mapsto> \<lparr>Dial = ''10.0.0.6:9090''\<rparr>))"
  "a ''ddd'' = None \<Longrightarrow>
     toUpstream container_noport a =
       (Inl (Failure ''unable to get port from container labels''), a)"
  by (simp_all add: toUpstream_def container_A_def container_B_def container_noport_def
      LabelEnable_def LabelMatchHost_def LabelUpstreamPort_def JoinHostPort_def Let_def)

text \<open>
  C2. \<open>GetUpstreams\<close> returns a nil error for every request, module and cache. Its list
  holds the targets of the matching containers whose resolution succeeded; each matching
  container whose resolution failed adds one warning to the log and nothing else, so the
  targets and the new warnings together are as many as the matching containers. With no
  container in the snapshot the result is the empty list, with a nil error as well.
\<close>

theorem GetUpstreams_never_fails:
  "GetUpstreams MatchHost MatchPath r u a =
     ((targets (resolutions MatchHost MatchPath r (containers u) a), None),
      u\<lparr>logger := logger u @ warnings (resolutions MatchHost MatchPath r (containers u) a)\<rparr>,
      resolve_all (filter (match MatchHost MatchPath r) (containers u)) a) \<and>
   map fst (resolutions MatchHost MatchPath r (containers u) a) =
     filter (match MatchHost MatchPath r) (containers u) \<and>
   length (targets (resolutions MatchHost MatchPath r (containers u) a)) +
   length (warnings (resolutions MatchHost MatchPath r (containers u) a)) =
     length (filter (match MatchHost MatchPath r) (containers u)) \<and>
   fst (GetUpstreams MatchHost MatchPath r (u\<lparr>containers := []\<rparr>) a) = ([], None)"
proof -
  have "length (targets (resolutions MatchHost MatchPath r (containers u) a)) +
        length (warnings (resolutions MatchHost MatchPath r (containers u) a)) =
        length (map fst (resolutions MatchHost MatchPath r (containers u) a))"
    by (simp add: targets_warnings_length)
  then have count: "length (targets (resolutions MatchHost MatchPath r (containers u) a)) +
        length (warnings (resolutions MatchHost MatchPath r (containers u) a)) =
        length (filter (match MatchHost MatchPath r) (containers u))"
    by (simp only: resolutions_containers)
  have none: "fst (GetUpstreams MatchHost MatchPath r (u\<lparr>containers := []\<rparr>) a) = ([], None)"
    by (simp add: GetUpstreams_def)
  from GetUpstreams_resolutions [of MatchHost MatchPath r u a] count none show ?thesis
    by (simp only: resolutions_containers simp_thms)
qed

theorem GetUpstreams_never_fails_witness:
  "fst (GetUpstreams exact_host exact_path request_example snapshot_example Map.empty) =
     ([\<lparr>Dial = ''10.0.0.5:8080''\<rparr>, \<lparr>Dial = ''10.0.0.6:9090''\<rparr>], None) \<and>
   logger (fst (snd (GetUpstreams exact_host exact_path request_example snapshot_example
     Map.empty))) =
     [(Warn, ''unable to get upstream from container'',
       Failure ''unable to get port from container labels'')]"
  using GetUpstreams_never_fails
    [of exact_host exact_path request_example snapshot_example Map.empty]
  by (simp add: snapshot_example_def match_examples toUpstream_examples)

lemma toUpstream_fst_cong:
  "b (ID c) = a (ID c) \<Longrightarrow> fst (toUpstream c b) = fst (toUpstream c a)"
  by (auto simp: toUpstream_def Let_def split: option.splits list.splits)

lemma toUpstream_other: "k \<noteq> ID c \<Longrightarrow> snd (toUpstream c a) k = a k"
  by (auto simp: toUpstream_def Let_def split: option.splits list.splits)

lemma GetUpstreams_range_caches:
  "fst (GetUpstreams_range MatchHost MatchPath r cs (ups, lg, a)) =
     ups @ map target_in (filter (visited MatchHost MatchPath r)
                            (zip cs (caches MatchHost MatchPath r cs a)))"
proof (induction cs arbitrary: ups lg a)
  case Nil
  show ?case by simp
next
  case (Cons c cs)
  show ?case
  proof (cases "match MatchHost MatchPath r c")
    case False
    then show ?thesis by (simp add: Cons.IH)
  next
    case True
    obtain res a' where res: "toUpstream c a = (res, a')"
      by (cases "toUpstream c a")
    show ?thesis
    proof (cases res)
      case (Inl err)
      with True res show ?thesis by (simp add: Cons.IH resolved_def)
    next
      case (Inr up)
      with True res show ?thesis by (simp add: Cons.IH resolved_def target_def)
    qed
  qed
qed

lemma caches_distinct:
  "distinct (map ID cs) \<Longrightarrow> (\<And>d. d \<in> set cs \<Longrightarrow> b (ID d) = a (ID d)) \<Longrightarrow>
   map target_in (filter (visited MatchHost MatchPath r)
                    (zip cs (caches MatchHost MatchPath r cs b))) =
   map (\<lambda>c. target c a) (filter (\<lambda>c. match MatchHost MatchPath r c \<and> resolved c a) cs)"
proof (induction cs arbitrary: b)
  case Nil
  show ?case by simp
next
  case (Cons c cs)
  define b' where "b' = (if match MatchHost MatchPath r c then snd (toUpstream c b) else b)"
  have "b (ID c) = a (ID c)"
    using Cons.prems(2) by simp
  then have head: "fst (toUpstream c b) = fst (toUpstream c a)"
    by (rule toUpstream_fst_cong)
  have dist: "distinct (map ID cs)"
    using Cons.prems(1) by simp
  have agree: "b' (ID d) = a (ID d)" if d: "d \<in> set cs" for d
  proof -
    from Cons.prems(1) have "ID c \<notin> ID ` set cs" by simp
    with d have "ID d \<noteq> ID c" by (metis imageI)
    then have "b' (ID d) = b (ID d)"
      by (simp add: b'_def toUpstream_other)
    moreover from d have "b (ID d) = a (ID d)"
      using Cons.prems(2) by simp
    ultimately show ?thesis by simp
  qed
  have tail: "map target_in (filter (visited MatchHost MatchPath r)
                    (zip cs (caches MatchHost MatchPath r cs b'))) =
     map (\<lambda>c. target c a) (filter (\<lambda>c. match MatchHost MatchPath r c \<and> resolved c a) cs)"
    using dist agree by (rule Cons.IH)
  have step: "caches MatchHost MatchPath r (c # cs) b = b # caches MatchHost MatchPath r cs b'"
    by (simp add: b'_def)
  show ?case
    unfolding step using head tail by (simp add: resolved_def target_def)
qed

text \<open>
  C10. The list \<open>GetUpstreams\<close> returns follows the snapshot: it is the snapshot, each
  container taken with the cache in which the loop reaches it, filtered to the containers
  that match and resolve, and mapped to their targets; filtering and mapping keep the
  order. When the IDs of the snapshot are distinct, as the IDs of one listing are, the
  cache of the call's start decides for every container: the list is the snapshot
  filtered to the containers that match the request and resolve, mapped to their targets.
\<close>

theorem GetUpstreams_keeps_order:
  "fst (fst (GetUpstreams MatchHost MatchPath r u a)) =
     map target_in (filter (visited MatchHost MatchPath r)
       (zip (containers u) (caches MatchHost MatchPath r (containers u) a))) \<and>
   (distinct (map ID (containers u)) \<longrightarrow>
      fst (fst (GetUpstreams MatchHost MatchPath r u a)) =
        map (\<lambda>c. target c a)
          (filter (\<lambda>c. match MatchHost MatchPath r c \<and> resolved c a) (containers u)))"
proof -
  have "fst (fst (GetUpstreams MatchHost MatchPath r u a)) =
        fst (GetUpstreams_range MatchHost MatchPath r (containers u) ([], logger u, a))"
    by (simp add: GetUpstreams_def split: prod.splits)
  then have general: "fst (fst (GetUpstreams MatchHost MatchPath r u a)) =
     map target_in (filter (visited MatchHost MatchPath r)
       (zip (containers u) (caches MatchHost MatchPath r (containers u) a)))"
    by (simp only: GetUpstreams_range_caches append_Nil)
  have "fst (fst (GetUpstreams MatchHost MatchPath r u a)) =
        map (\<lambda>c. target c a)
          (filter (\<lambda>c. match MatchHost MatchPath r c \<and> resolved c a) (containers u))"
    if "distinct (map ID (containers u))"
    using general caches_distinct [OF that, of a a MatchHost MatchPath r] by simp
  with general show ?thesis by blast
qed

theorem GetUpstreams_keeps_order_witness:
  "distinct (map ID (containers snapshot_example)) \<and>
   fst (fst (GetUpstreams exact_host exact_path request_example snapshot_example Map.empty)) =
     [\<lparr>Dial = ''10.0.0.5:8080''\<rparr>, \<lparr>Dial = ''10.0.0.6:9090''\<rparr>]"
  using GetUpstreams_keeps_order
    [of exact_host exact_path request_example snapshot_example Map.empty]
  by (simp add: snapshot_example_def ID_examples match_examples toUpstream_examples
      resolved_def target_def)

section \<open>The cache over time, calls taken one after another\<close>

lemma GetUpstreams_keeps:
  "a k = Some v \<Longrightarrow> snd (snd (GetUpstreams MatchHost MatchPath r u a)) k = Some v"
  by (simp add: GetUpstreams_resolutions resolve_all_keeps)

lemma serve_keeps: "a k = Some v \<Longrightarrow> serve MatchHost MatchPath hist a k = Some v"
  by (induction hist arbitrary: a) (auto simp: GetUpstreams_keeps)

lemma toUpstream_inserts:
  "snd (toUpstream c a) = a \<or>
   (a (ID c) = None \<and>
    (\<exists>up. fst (toUpstream c a) = Inr up \<and> snd (toUpstream c a) = a(ID c \<mapsto> up)))"
  by (auto simp: toUpstream_def Let_def split: option.splits list.splits)

text \<open>
  Under calls that do not overlap the cache only grows. An entry that is in the cache is
  still there, with the same target, after one resolution, after any list of resolutions
  and after any history of requests, whatever snapshots these requests were served
  against. A resolution changes the cache only by inserting the target it returns under
  an ID that had no entry. The watcher has no access to the cache. Calls that overlap
  are the subject of the last section.
\<close>

theorem addresses_only_grow:
  "(a k = Some v \<longrightarrow>
      snd (toUpstream c a) k = Some v \<and>
      resolve_all cs a k = Some v \<and>
      serve MatchHost MatchPath hist a k = Some v) \<and>
   (snd (toUpstream c a) = a \<or>
    (a (ID c) = None \<and>
     (\<exists>up. fst (toUpstream c a) = Inr up \<and> snd (toUpstream c a) = a(ID c \<mapsto> up))))"
  using toUpstream_inserts [of c a]
  by (simp add: toUpstream_keeps resolve_all_keeps serve_keeps)

theorem addresses_only_grow_witness:
  "snd (toUpstream container_A Map.empty) ''aaa'' = Some \<lparr>Dial = ''10.0.0.5:8080''\<rparr> \<and>
   snd (toUpstream container_B (snd (toUpstream container_A Map.empty))) ''aaa'' =
     Some \<lparr>Dial = ''10.0.0.5:8080''\<rparr> \<and>
   serve exact_host exact_path [(request_example, snapshot_B), (request_other, snapshot_B)]
     (snd (toUpstream container_A Map.empty)) ''aaa'' = Some \<lparr>Dial = ''10.0.0.5:8080''\<rparr>"
  using addresses_only_grow [of "snd (toUpstream container_A Map.empty)" "''aaa''"
      "\<lparr>Dial = ''10.0.0.5:8080''\<rparr>" container_B "[]" exact_host exact_path
      "[(request_example, snapshot_B), (request_other, snapshot_B)]"]
  by (simp add: toUpstream_examples)

section \<open>Properties of \<open>keepUpdated\<close>\<close>

lemma GetUpstreams_containers:
  "containers u' = containers u \<Longrightarrow>
     fst (GetUpstreams MatchHost MatchPath r u' a) = fst (GetUpstreams MatchHost MatchPath r u a) \<and>
     snd (snd (GetUpstreams MatchHost MatchPath r u' a)) =
       snd (snd (GetUpstreams MatchHost MatchPath r u a))"
  by (simp add: GetUpstreams_resolutions)

lemma failed_relist_step:
  "location w = Select \<Longrightarrow>
     keepUpdated_step (Message (Inl err)) w =
       Some (w\<lparr>receiver := (receiver w)\<lparr>logger := logger (receiver w) @
         [(Error, ''unable to get the list of containers'', err)]\<rparr>\<rparr>)"
  by (simp add: keepUpdated_step_def)

lemma failed_relists_run:
  "location w = Select \<Longrightarrow>
     keepUpdated (failed_relists errs) w =
       Some (w\<lparr>receiver := (receiver w)\<lparr>logger := logger (receiver w) @ relist_errors errs\<rparr>\<rparr>)"
proof (induction errs arbitrary: w)
  case Nil
  show ?case by simp
next
  case (Cons err errs)
  let ?w1 = "w\<lparr>receiver := (receiver w)\<lparr>logger := logger (receiver w) @
         [(Error, ''unable to get the list of containers'', err)]\<rparr>\<rparr>"
  from Cons.prems have "location ?w1 = Select" by simp
  then have "keepUpdated (failed_relists errs) ?w1 =
       Some (?w1\<lparr>receiver := (receiver ?w1)\<lparr>logger := logger (receiver ?w1) @
         relist_errors errs\<rparr>\<rparr>)"
    by (rule Cons.IH)
  with Cons.prems show ?case
    by (simp add: failed_relist_step)
qed

text \<open>
  C6. While the watcher stands in its inner \<open>select\<close>, notifications whose re-list fails
  leave the snapshot as it is: the watcher logs each error, stays in the same
  \<open>select\<close> on the same subscription, and \<open>GetUpstreams\<close> returns for every request and
  cache what it returned before, and leaves the same cache.
\<close>

theorem relist_failure_keeps_snapshot:
  "location w = Select \<Longrightarrow>
     (\<exists>w'. keepUpdated (failed_relists errs) w = Some w' \<and>
        containers (receiver w') = containers (receiver w) \<and>
        logger (receiver w') = logger (receiver w) @ relist_errors errs \<and>
        location w' = Select \<and>
        subscriptions w' = subscriptions w \<and>
        fst (GetUpstreams MatchHost MatchPath r (receiver w') a) =
          fst (GetUpstreams MatchHost MatchPath r (receiver w) a) \<and>
        snd (snd (GetUpstreams MatchHost MatchPath r (receiver w') a)) =
          snd (snd (GetUpstreams MatchHost MatchPath r (receiver w) a)))"
proof -
  assume sel: "location w = Select"
  let ?w' = "w\<lparr>receiver := (receiver w)\<lparr>logger := logger (receiver w) @ relist_errors errs\<rparr>\<rparr>"
  have run: "keepUpdated (failed_relists errs) w = Some ?w'"
    using sel by (rule failed_relists_run)
  have same: "containers (receiver ?w') = containers (receiver w)"
    by simp
  have "fst (GetUpstreams MatchHost MatchPath r (receiver ?w') a) =
          fst (GetUpstreams MatchHost MatchPath r (receiver w) a) \<and>
        snd (snd (GetUpstreams MatchHost MatchPath r (receiver ?w') a)) =
          snd (snd (GetUpstreams MatchHost MatchPath r (receiver w) a))"
    using same by (rule GetUpstreams_containers)
  with run sel show ?thesis by simp
qed

theorem relist_failure_keeps_snapshot_witness:
  "location (keepUpdated_start snapshot_example) = Select \<and>
   (\<exists>w'. keepUpdated (failed_relists [Failure ''timeout''])
            (keepUpdated_start snapshot_example) = Some w' \<and>
      containers (receiver w') = containers snapshot_example \<and>
      location w' = Select \<and>
      subscriptions w' = 1 \<and>
      fst (GetUpstreams exact_host exact_path request_example (receiver w') Map.empty) =
        fst (GetUpstreams exact_host exact_path request_example snapshot_example Map.empty))"
  using relist_failure_keeps_snapshot [of "keepUpdated_start snapshot_example"
      "[Failure ''timeout'']" exact_host exact_path request_example Map.empty]
  by (simp add: keepUpdated_start_def) blast

lemma returned_stuck: "location w = Returned \<Longrightarrow> keepUpdated_step e w = None"
  by (simp add: keepUpdated_step_def)

lemma returned_run:
  "location w = Returned \<Longrightarrow> keepUpdated evs w = Some w' \<Longrightarrow> evs = []"
  by (cases evs) (simp_all add: returned_stuck)

lemma step_to_returned:
  "keepUpdated_step e w = Some w' \<Longrightarrow> location w \<noteq> Returned \<Longrightarrow> location w' = Returned \<Longrightarrow>
     e = Errs Canceled \<or> e = CtxDone"
proof -
  assume step: "keepUpdated_step e w = Some w'" and before: "location w \<noteq> Returned"
    and after: "location w' = Returned"
  show ?thesis
  proof (cases e)
    case (Message res)
    with step after show ?thesis
      by (cases "location w"; cases res) (auto simp: keepUpdated_step_def)
  next
    case (Errs err)
    with step after show ?thesis
      by (cases "location w") (auto simp: keepUpdated_step_def split: if_splits)
  next
    case CtxDone
    then show ?thesis by simp
  next
    case TimeAfter
    with step after show ?thesis
      by (cases "location w") (auto simp: keepUpdated_step_def)
  qed
qed

lemma returns_on_cancel:
  "keepUpdated evs w = Some w' \<Longrightarrow> location w \<noteq> Returned \<Longrightarrow> location w' = Returned \<Longrightarrow>
     evs \<noteq> [] \<and> (last evs = Errs Canceled \<or> last evs = CtxDone)"
proof (induction evs arbitrary: w)
  case Nil
  then show ?case by simp
next
  case (Cons e es)
  from Cons.prems(1) obtain w1 where
    step: "keepUpdated_step e w = Some w1" and rest: "keepUpdated es w1 = Some w'"
    by (auto split: option.splits)
  show ?case
  proof (cases "location w1 = Returned")
    case True
    from True rest have "es = []" by (rule returned_run)
    moreover from step Cons.prems(2) True have "e = Errs Canceled \<or> e = CtxDone"
      by (rule step_to_returned)
    ultimately show ?thesis by simp
  next
    case False
    from rest False Cons.prems(3)
    have "es \<noteq> [] \<and> (last es = Errs Canceled \<or> last es = CtxDone)"
      by (rule Cons.IH)
    then show ?thesis by simp
  qed
qed

lemma failed_subscription_step:
  "location w = Select \<Longrightarrow> err \<noteq> Canceled \<Longrightarrow>
     keepUpdated_step (Errs err) w =
       Some (w\<lparr>receiver := (receiver w)\<lparr>logger := logger (receiver w) @
               [(Warn, ''unable to monitor container events; will retry'', err)]\<rparr>,
             location := Backoff (500 * Millisecond)\<rparr>)"
  by (simp add: keepUpdated_step_def)

lemma backoff_steps:
  "location w = Backoff d \<Longrightarrow>
     keepUpdated_step TimeAfter w =
       Some (w\<lparr>location := Select, subscriptions := subscriptions w + 1\<rparr>)"
  "location w = Backoff d \<Longrightarrow> keepUpdated_step CtxDone w = Some (w\<lparr>location := Returned\<rparr>)"
  by (simp_all add: keepUpdated_step_def)

lemma failed_subscriptions_run:
  "location w = Select \<Longrightarrow> err \<noteq> Canceled \<Longrightarrow>
     \<exists>w'. keepUpdated (failed_subscriptions n err) w = Some w' \<and>
       location w' = Select \<and>
       subscriptions w' = subscriptions w + n \<and>
       containers (receiver w') = containers (receiver w)"
proof (induction n arbitrary: w)
  case 0
  then show ?case by simp
next
  case (Suc n)
  let ?w1 = "w\<lparr>receiver := (receiver w)\<lparr>logger := logger (receiver w) @
               [(Warn, ''unable to monitor container events; will retry'', err)]\<rparr>,
             location := Backoff (500 * Millisecond)\<rparr>"
  let ?w2 = "?w1\<lparr>location := Select, subscriptions := subscriptions ?w1 + 1\<rparr>"
  have s1: "keepUpdated_step (Errs err) w = Some ?w1"
    using Suc.prems by (rule failed_subscription_step)
  have "location ?w1 = Backoff (500 * Millisecond)" by simp
  then have s2: "keepUpdated_step TimeAfter ?w1 = Some ?w2"
    by (rule backoff_steps(1))
  have "location ?w2 = Select" by simp
  then obtain w' where
    "keepUpdated (failed_subscriptions n err) ?w2 = Some w'" "location w' = Select"
    "subscriptions w' = subscriptions ?w2 + n"
    "containers (receiver w') = containers (receiver ?w2)"
    using Suc.IH [of ?w2] Suc.prems(2) by blast
  with s1 s2 show ?case by simp
qed

text \<open>
  C7. The watcher returns only on cancellation: a run that ends in \<open>Returned\<close> ends with
  the receipt of a subscription error that is \<open>context.Canceled\<close> or of \<open>ctx.Done()\<close>
  in the backoff, and both do make it return. Any other subscription error leaves the
  inner loop for a backoff of 500 milliseconds, after which the watcher subscribes again;
  the snapshot is kept. There is no bound on this: after \<open>n\<close> failures in a row, for
  every \<open>n\<close>, the watcher is back in its inner \<open>select\<close> on a new subscription.
\<close>

theorem keepUpdated_returns_only_on_cancel:
  "(location w \<noteq> Returned \<longrightarrow> keepUpdated evs w = Some w' \<longrightarrow> location w' = Returned \<longrightarrow>
      evs \<noteq> [] \<and> (last evs = Errs Canceled \<or> last evs = CtxDone)) \<and>
   (location w = Select \<longrightarrow>
      keepUpdated_step (Errs Canceled) w = Some (w\<lparr>location := Returned\<rparr>)) \<and>
   (location w = Backoff d \<longrightarrow>
      keepUpdated_step CtxDone w = Some (w\<lparr>location := Returned\<rparr>)) \<and>
   (location w = Select \<longrightarrow> err \<noteq> Canceled \<longrightarrow>
      (\<exists>w1 w2. keepUpdated_step (Errs err) w = Some w1 \<and>
         location w1 = Backoff (500 * Millisecond) \<and>
         containers (receiver w1) = containers (receiver w) \<and>
         keepUpdated_step TimeAfter w1 = Some w2 \<and>
         location w2 = Select \<and>
         subscriptions w2 = subscriptions w + 1 \<and>
         containers (receiver w2) = containers (receiver w))) \<and>
   (location w = Select \<longrightarrow> err \<noteq> Canceled \<longrightarrow>
      (\<exists>wn. keepUpdated (failed_subscriptions n err) w = Some wn \<and>
         location wn = Select \<and>
         subscriptions wn = subscriptions w + n \<and>
         containers (receiver wn) = containers (receiver w)))"
proof -
  have only: "location w \<noteq> Returned \<longrightarrow> keepUpdated evs w = Some w' \<longrightarrow>
      location w' = Returned \<longrightarrow>
      evs \<noteq> [] \<and> (last evs = Errs Canceled \<or> last evs = CtxDone)"
    using returns_on_cancel [of evs w w'] by blast
  have cancel: "location w = Select \<longrightarrow>
      keepUpdated_step (Errs Canceled) w = Some (w\<lparr>location := Returned\<rparr>)"
    by (simp add: keepUpdated_step_def)
  have ctx: "location w = Backoff d \<longrightarrow>
      keepUpdated_step CtxDone w = Some (w\<lparr>location := Returned\<rparr>)"
    by (simp add: backoff_steps)
  have retry: "location w = Select \<longrightarrow> err \<noteq> Canceled \<longrightarrow>
      (\<exists>w1 w2. keepUpdated_step (Errs err) w = Some w1 \<and>
         location w1 = Backoff (500 * Millisecond) \<and>
         containers (receiver w1) = containers (receiver w) \<and>
         keepUpdated_step TimeAfter w1 = Some w2 \<and>
         location w2 = Select \<and>
         subscriptions w2 = subscriptions w + 1 \<and>
         containers (receiver w2) = containers (receiver w))"
    by (simp add: failed_subscription_step keepUpdated_step_def)
  have forever: "location w = Select \<longrightarrow> err \<noteq> Canceled \<longrightarrow>
      (\<exists>wn. keepUpdated (failed_subscriptions n err) w = Some wn \<and>
         location wn = Select \<and>
         subscriptions wn = subscriptions w + n \<and>
         containers (receiver wn) = containers (receiver w))"
    using failed_subscriptions_run [of w err n] by blast
  from only cancel ctx retry forever show ?thesis
    by (intro conjI)
qed

theorem keepUpdated_returns_only_on_cancel_witness:
  "location (keepUpdated_start snapshot_B) = Select \<and>
   Failure ''EOF'' \<noteq> Canceled \<and>
   map_option location
     (keepUpdated [Errs (Failure ''EOF''), TimeAfter, Errs Canceled]
        (keepUpdated_start snapshot_B)) = Some Returned \<and>
   last [Errs (Failure ''EOF''), TimeAfter, Errs Canceled] = Errs Canceled \<and>
   (\<exists>wn. keepUpdated (failed_subscriptions 3 (Failure ''EOF'')) (keepUpdated_start snapshot_B) =
            Some wn \<and>
      location wn = Select \<and> subscriptions wn = 4 \<and>
      containers (receiver wn) = containers snapshot_B)"
  using keepUpdated_returns_only_on_cancel [of "keepUpdated_start snapshot_B"
      "[Errs (Failure ''EOF''), TimeAfter, Errs Canceled]"
      "the (keepUpdated [Errs (Failure ''EOF''), TimeAfter, Errs Canceled]
        (keepUpdated_start snapshot_B))" 0 "Failure ''EOF''" 3]
  by (simp add: keepUpdated_start_def keepUpdated_step_def)

section \<open>Calls of \<open>toUpstream\<close> that overlap\<close>

lemma toUpstream_sections:
  "toUpstream c a =
     (case toUpstream_lookup c a of
        Some cached \<Rightarrow> (Inr cached, a)
      | None \<Rightarrow> toUpstream_miss c a)"
  by (cases "a (ID c)") (simp_all add: toUpstream_def toUpstream_lookup_def toUpstream_miss_def)

text \<open>A call whose two sections run with nothing in between is \<open>toUpstream\<close>.\<close>

lemma interleave_alone:
  "interleave [0, 0] [Looking c] a = ([Finished (fst (toUpstream c a))], snd (toUpstream c a))"
  by (simp add: toUpstream_sections split: option.splits prod.splits)

text \<open>Under every schedule an ID that has an entry keeps one: nothing deletes.\<close>

lemma toUpstream_miss_dom: "a k \<noteq> None \<Longrightarrow> snd (toUpstream_miss c a) k \<noteq> None"
  by (auto simp: toUpstream_miss_def Let_def split: option.splits list.splits)

lemma call_step_dom: "a k \<noteq> None \<Longrightarrow> snd (call_step c a) k \<noteq> None"
proof (cases c)
  case (Looking x)
  assume "a k \<noteq> None"
  with Looking show ?thesis by (simp split: option.splits)
next
  case (Missed x)
  assume "a k \<noteq> None"
  then have "snd (toUpstream_miss x a) k \<noteq> None" by (rule toUpstream_miss_dom)
  with Missed show ?thesis by (cases "toUpstream_miss x a") simp
next
  case (Finished res)
  assume "a k \<noteq> None"
  with Finished show ?thesis by simp
qed

lemma interleave_dom: "a k \<noteq> None \<Longrightarrow> snd (interleave schedule calls a) k \<noteq> None"
proof (induction schedule arbitrary: calls a)
  case Nil
  then show ?case by simp
next
  case (Cons i schedule)
  show ?case
  proof (cases "i < length calls")
    case False
    with Cons show ?thesis by simp
  next
    case True
    obtain c a' where step: "call_step (calls ! i) a = (c, a')"
      by (cases "call_step (calls ! i) a")
    from Cons.prems have "snd (call_step (calls ! i) a) k \<noteq> None"
      by (rule call_step_dom)
    with step have "a' k \<noteq> None" by simp
    then have "snd (interleave schedule (calls[i := c]) a') k \<noteq> None"
      by (rule Cons.IH)
    with True step show ?thesis by simp
  qed
qed

lemma sections_two:
  "toUpstream_lookup container_two a = a ''ggg''"
  "toUpstream_lookup container_two_other a = a ''ggg''"
  "toUpstream_miss container_two a =
     (Inr \<lparr>Dial = ''10.0.1.2:8080''\<rparr>, a(''ggg'' \<mapsto> \<lparr>Dial = ''10.0.1.2:8080''\<rparr>))"
  "toUpstream_miss container_two_other a =
     (Inr \<lparr>Dial = ''10.0.2.2:8080''\<rparr>, a(''ggg'' \<mapsto> \<lparr>Dial = ''10.0.2.2:8080''\<rparr>))"
  by (simp_all add: toUpstream_lookup_def toUpstream_miss_def container_two_def
      container_two_other_def LabelEnable_def LabelUpstreamPort_def JoinHostPort_def Let_def)

text \<open>
  C9, at two requests that overlap. Two calls resolve the container \<open>ggg\<close>, which is
  attached to two networks, on an empty cache; their ranges over the networks start with
  different networks. Both look the ID up before either inserts, so both miss. After the
  first call's insert the entry is \<open>10.0.1.2:8080\<close>; the insert of the second call,
  which does not look the ID up again, replaces it by \<open>10.0.2.2:8080\<close>. Two targets
  have been inserted for one ID, and an entry has been replaced.
\<close>

theorem overlapping_misses_replace_entry:
  "snd (interleave [0, 1, 0] [Looking container_two, Looking container_two_other] Map.empty)
     ''ggg'' = Some \<lparr>Dial = ''10.0.1.2:8080''\<rparr> \<and>
   snd (interleave [0, 1, 0, 1] [Looking container_two, Looking container_two_other] Map.empty)
     ''ggg'' = Some \<lparr>Dial = ''10.0.2.2:8080''\<rparr>"
  by (simp add: sections_two)

text \<open>
  C3, at the same two calls and two later ones. The first call returns
  \<open>10.0.1.2:8080\<close> and has cached it. A third call, begun after that return, is a
  cache hit and returns the same target. Then the second call, which had missed before
  the first inserted, inserts and returns \<open>10.0.2.2:8080\<close>; a fourth call for the same
  ID, a cache hit again, returns \<open>10.0.2.2:8080\<close>, not the target that the first call
  cached.
\<close>

theorem overlapping_miss_changes_target:
  "fst (interleave [0, 1, 0, 2, 2, 1, 3, 3]
         [Looking container_two, Looking container_two_other,
          Looking container_two, Looking container_two] Map.empty) =
     [Finished (Inr \<lparr>Dial = ''10.0.1.2:8080''\<rparr>),
      Finished (Inr \<lparr>Dial = ''10.0.2.2:8080''\<rparr>),
      Finished (Inr \<lparr>Dial = ''10.0.1.2:8080''\<rparr>),
      Finished (Inr \<lparr>Dial = ''10.0.2.2:8080''\<rparr>)]"
  by (simp add: sections_two)

end
